theory Spec2Isabelle
  imports Main
begin

section \<open>Python values\<close>

text \<open>
  The module \<^verbatim>\<open>mangadex/url_models.py\<close> holds one class, \<^verbatim>\<open>URLRequest\<close>. Its methods
  work on Python texts, byte strings, dictionaries and parsed JSON.

  A \<^verbatim>\<open>str\<close> is held as the bytes of its UTF-8 encoding, a \<^verbatim>\<open>bytes\<close> object as its bytes:
  \<^verbatim>\<open>s.encode("utf-8")\<close> is then the identity, and \<^verbatim>\<open>b.decode("utf-8")\<close> returns the same
  bytes when they are well-formed UTF-8 and raises \<^verbatim>\<open>UnicodeDecodeError\<close> otherwise.
\<close>

type_synonym str = string
type_synonym bytes = "char list"

text \<open>
  The strict UTF-8 decoder, as a scan over the bytes: \<open>need\<close> continuation bytes are
  still expected, the next of them within \<open>lo..hi\<close> (the first continuation byte after
  E0, ED, F0 and F4 has a narrower range, which excludes overlong forms, surrogates and
  code points past U+10FFFF).
\<close>

fun utf8_scan :: "nat \<Rightarrow> nat \<Rightarrow> nat \<Rightarrow> bytes \<Rightarrow> bool" where
  "utf8_scan need lo hi [] = (need = 0)"
| "utf8_scan need lo hi (c # cs) =
     (let n = (of_char c :: nat) in
      if need = 0 then
        (if n < 0x80 then utf8_scan 0 0x80 0xBF cs
         else if 0xC2 \<le> n \<and> n \<le> 0xDF then utf8_scan 1 0x80 0xBF cs
         else if n = 0xE0 then utf8_scan 2 0xA0 0xBF cs
         else if 0xE1 \<le> n \<and> n \<le> 0xEC then utf8_scan 2 0x80 0xBF cs
         else if n = 0xED then utf8_scan 2 0x80 0x9F cs
         else if 0xEE \<le> n \<and> n \<le> 0xEF then utf8_scan 2 0x80 0xBF cs
         else if n = 0xF0 then utf8_scan 3 0x90 0xBF cs
         else if 0xF1 \<le> n \<and> n \<le> 0xF3 then utf8_scan 3 0x80 0xBF cs
         else if n = 0xF4 then utf8_scan 3 0x80 0x8F cs
         else False)
      else lo \<le> n \<and> n \<le> hi \<and> utf8_scan (need - 1) 0x80 0xBF cs)"

definition utf8_decode :: "bytes \<Rightarrow> str option" where
  "utf8_decode b = (if utf8_scan 0 0x80 0xBF b then Some b else None)"

text \<open>
  Parameter values. The source tells apart \<^verbatim>\<open>None\<close>, \<^verbatim>\<open>bytes\<close>, \<^verbatim>\<open>list\<close> and \<^verbatim>\<open>tuple\<close>;
  every other value reaches \<^verbatim>\<open>urlencode\<close>, which takes \<^verbatim>\<open>str(v)\<close> of it. \<open>SOther t\<close> is any
  other object (a float, a UUID, a nested list), given by the text \<^verbatim>\<open>str\<close> returns for it.
\<close>

datatype scalar =
    SNone
  | SStr str
  | SBytes bytes
  | SInt int
  | SBool bool
  | SOther str

datatype pvalue =
    Atom scalar
  | PList "scalar list"
  | PTuple "scalar list"

text \<open>A \<^verbatim>\<open>dict\<close> keeps its insertion order and has each key once: an association list
  with distinct keys.\<close>

type_synonym params = "(str \<times> pvalue) list"
type_synonym headers = "(str \<times> str) list"

text \<open>Floats are never inspected by the source; they are carried as mantissa and binary
  exponent, or one of the three special values.\<close>

datatype pyfloat = Finite int int | PosInf | NegInf | NaN

datatype number = NInt int | NFloat pyfloat

text \<open>What \<^verbatim>\<open>json.loads\<close> returns.\<close>

datatype json =
    JNull
  | JBool bool
  | JInt int
  | JFloat pyfloat
  | JStr str
  | JList "json list"
  | JDict "(str \<times> json) list"

section \<open>The standard library's \<^verbatim>\<open>urlencode\<close>\<close>

definition digit_char :: "nat \<Rightarrow> char" where
  "digit_char n = ''0123456789'' ! n"

function str_of_nat :: "nat \<Rightarrow> str" where
  "str_of_nat n = (if n < 10 then [digit_char n] else str_of_nat (n div 10) @ [digit_char (n mod 10)])"
  by pat_completeness auto
termination
  by (relation "measure id") auto

declare str_of_nat.simps [simp del]

definition str_of_int :: "int \<Rightarrow> str" where
  "str_of_int i = (if i < 0 then CHR ''-'' # str_of_nat (nat (- i)) else str_of_nat (nat i))"

definition always_safe :: "char \<Rightarrow> bool" where
  "always_safe c =
     (c \<in> set ''ABCDEFGHIJKLMNOPQRSTUVWXYZabcdefghijklmnopqrstuvwxyz0123456789_.-~'')"

definition hex_digit :: "nat \<Rightarrow> char" where
  "hex_digit n = ''0123456789ABCDEF'' ! n"

text \<open>\<^verbatim>\<open>quote_plus\<close> on the bytes of its argument: an unreserved byte stands for itself, a
  space becomes \<^verbatim>\<open>+\<close>, any other byte is \<^verbatim>\<open>%XX\<close>.\<close>

definition quote_byte :: "char \<Rightarrow> str" where
  "quote_byte c =
     (if always_safe c then [c]
      else if c = CHR '' '' then ''+''
      else [CHR ''%'', hex_digit (of_char c div 16), hex_digit (of_char c mod 16)])"

definition quote_plus :: "char list \<Rightarrow> str" where
  "quote_plus s = concat (map quote_byte s)"

text \<open>One value of a pair, as \<^verbatim>\<open>urlencode\<close> writes it: a \<^verbatim>\<open>bytes\<close> value is quoted as it
  is, any other value \<open>v\<close> through \<^verbatim>\<open>str(v)\<close>, whose bytes are then quoted.\<close>

fun quote_value :: "scalar \<Rightarrow> str" where
  "quote_value SNone = quote_plus ''None''"
| "quote_value (SStr s) = quote_plus s"
| "quote_value (SBytes b) = quote_plus b"
| "quote_value (SInt i) = quote_plus (str_of_int i)"
| "quote_value (SBool b) = quote_plus (if b then ''True'' else ''False'')"
| "quote_value (SOther t) = quote_plus t"

definition quote_pair :: "str \<times> scalar \<Rightarrow> str" where
  "quote_pair p = quote_plus (fst p) @ ''='' @ quote_value (snd p)"

fun str_join :: "str \<Rightarrow> str list \<Rightarrow> str" where
  "str_join sep [] = []"
| "str_join sep [x] = x"
| "str_join sep (x # y # ys) = x @ sep @ str_join sep (y # ys)"

definition urlencode :: "(str \<times> scalar) list \<Rightarrow> str" where
  "urlencode query = str_join ''&'' (map quote_pair query)"

section \<open>\<^verbatim>\<open>URLRequest.__encode_parameters\<close> and \<^verbatim>\<open>URLRequest.__build_url\<close>\<close>

text \<open>The loop of \<^verbatim>\<open>__encode_parameters\<close> that fills \<^verbatim>\<open>params_tuple\<close>.\<close>

fun params_tuple :: "params \<Rightarrow> (str \<times> scalar) list" where
  "params_tuple [] = []"
| "params_tuple ((k, v) # rest) =
     (case v of
        Atom SNone \<Rightarrow> params_tuple rest
      | PList items \<Rightarrow> map (Pair k) items @ params_tuple rest
      | PTuple items \<Rightarrow> map (Pair k) items @ params_tuple rest
      | Atom a \<Rightarrow> (k, a) # params_tuple rest)"

definition encode_parameters :: "params \<Rightarrow> str" where
  "encode_parameters ps = urlencode (params_tuple ps)"

text \<open>The conditional expression binds weakest: the test is on the dictionary, which is
  false exactly when it is empty.\<close>

definition build_url :: "str \<Rightarrow> params \<Rightarrow> str" where
  "build_url url ps = (if ps \<noteq> [] then url @ ''?'' @ encode_parameters ps else url)"

section \<open>Responses, errors and the shared session\<close>

text \<open>Of a \<^verbatim>\<open>requests.Response\<close> the source reads \<^verbatim>\<open>ok\<close> and \<^verbatim>\<open>content\<close>. \<^verbatim>\<open>ok\<close> is false
  exactly when \<^verbatim>\<open>raise_for_status\<close> would raise: for a status from 400 to 599.\<close>

record response =
  status_code :: nat
  content :: bytes
  response_headers :: headers

definition ok :: "response \<Rightarrow> bool" where
  "ok r = (\<not> (400 \<le> status_code r \<and> status_code r < 600))"

text \<open>Modelled from the spec: the class \<^verbatim>\<open>ApiError\<close> of \<^verbatim>\<open>mangadex/errors.py\<close>, which is not
  among the sources. An \<^verbatim>\<open>ApiError\<close> is constructed from the one argument the source
  passes: the full response, or the payload's \<^verbatim>\<open>errors\<close> field (else a fixed text).\<close>

datatype cause = OfResponse response | OfData json

datatype error =
    ApiError cause
  | ValueError str
  | UnicodeDecodeError
  | RequestException str

text \<open>The four method calls the source makes on the session, with the arguments it passes.
  The URL of \<open>Get\<close> is the argument of \<^verbatim>\<open>session.get\<close>; how the library prepares it for
  the connection is not part of the model.\<close>

datatype wire_request =
    Get str "headers option" number
  | Post str params "headers option" number
  | Delete str "headers option" number
  | Put str params "headers option" number

text \<open>Objects live in a store and are known by reference, so that being the same
  instance is being the same reference.\<close>

type_synonym ref = nat

record adapter =
  pool_connections :: nat
  pool_maxsize :: nat
  max_retries :: nat
  pool_block :: bool

datatype obj = Adapter adapter | Session "(str \<times> ref) list"

record pystate =
  heap :: "obj list"
  cls_session :: "ref option"

text \<open>What a call does besides returning: \<open>Send s req\<close> is the method call \<open>req\<close> made on
  the session \<open>s\<close>, \<open>LogException m\<close> a record handed to \<^verbatim>\<open>logging.exception\<close>.\<close>

datatype event = Send ref wire_request | LogException str

record call =
  outcome :: "error + json"
  trace :: "event list"
  after :: pystate

text \<open>The parts of the standard library that the model takes as given: \<^verbatim>\<open>str.upper\<close> and
  \<^verbatim>\<open>json.loads\<close>, the latter \<open>None\<close> where it raises \<^verbatim>\<open>JSONDecodeError\<close>.\<close>

record pylib =
  str_upper :: "str \<Rightarrow> str"
  json_loads :: "str \<Rightarrow> json option"

type_synonym transport = "ref \<Rightarrow> wire_request \<Rightarrow> error + response"

definition new_obj :: "obj \<Rightarrow> pystate \<Rightarrow> ref \<times> pystate" where
  "new_obj x st = (length (heap st), st\<lparr>heap := heap st @ [x]\<rparr>)"

fun dict_set :: "'k \<Rightarrow> 'v \<Rightarrow> ('k \<times> 'v) list \<Rightarrow> ('k \<times> 'v) list" where
  "dict_set k v [] = [(k, v)]"
| "dict_set k v ((k', v') # d) = (if k' = k then (k, v) # d else (k', v') # dict_set k v d)"

text \<open>\<^verbatim>\<open>Session.mount\<close> assigns \<^verbatim>\<open>self.adapters[prefix] = adapter\<close>.\<close>

definition mount :: "ref \<Rightarrow> str \<Rightarrow> ref \<Rightarrow> pystate \<Rightarrow> pystate" where
  "mount s prefix a st =
     (if s < length (heap st) then
        (case heap st ! s of
           Session ads \<Rightarrow> st\<lparr>heap := (heap st)[s := Session (dict_set prefix a ads)]\<rparr>
         | Adapter _ \<Rightarrow> st)
      else st)"

definition default_adapter :: adapter where
  "default_adapter =
     \<lparr>pool_connections = 10, pool_maxsize = 10, max_retries = 0, pool_block = False\<rparr>"

text \<open>\<^verbatim>\<open>requests.Session()\<close>: a new session, with the library's default adapters mounted.\<close>

definition new_session :: "pystate \<Rightarrow> ref \<times> pystate" where
  "new_session st =
     (let (s, st1) = new_obj (Session []) st;
          (a1, st2) = new_obj (Adapter default_adapter) st1;
          st3 = mount s ''https://'' a1 st2;
          (a2, st4) = new_obj (Adapter default_adapter) st3;
          st5 = mount s ''http://'' a2 st4
      in (s, st5))"

section \<open>\<^verbatim>\<open>URLRequest._get_session\<close>\<close>

definition get_session :: "pystate \<Rightarrow> ref \<times> pystate" where
  "get_session st =
     (case cls_session st of
        None \<Rightarrow>
          (let (s, st1) = new_session st;
               st2 = st1\<lparr>cls_session := Some s\<rparr>;
               (adapter, st3) =
                 new_obj (Adapter \<lparr>pool_connections = 100, pool_maxsize = 100,
                                   max_retries = 3, pool_block = True\<rparr>) st2;
               st4 = mount s ''http://'' adapter st3;
               st5 = mount s ''https://'' adapter st4
           in (s, st5))
      | Some s \<Rightarrow> (s, st))"

section \<open>\<^verbatim>\<open>URLRequest._check_api_error\<close> and \<^verbatim>\<open>URLRequest.__parse_data\<close>\<close>

text \<open>\<open>None\<close> when the check returns, \<open>Some e\<close> when it raises \<open>e\<close>. The assignment
  \<^verbatim>\<open>data = data[0]\<close> rebinds the check's own variable only.\<close>

definition check_api_error :: "json \<Rightarrow> error option" where
  "check_api_error data =
     (let data1 = (case data of JList (x # xs) \<Rightarrow> x | _ \<Rightarrow> data) in
      case data1 of
        JDict d \<Rightarrow>
          if map_of d ''result'' = Some (JStr ''error'') \<or> ''error'' \<in> set (map fst d)
          then Some (ApiError (OfData
                 (case map_of d ''errors'' of
                    Some errors \<Rightarrow> errors
                  | None \<Rightarrow> JStr ''Erro desconhecido'')))
          else None
      | _ \<Rightarrow> None)"

datatype body = BodyStr str | BodyBytes bytes

text \<open>\<^verbatim>\<open>__parse_data\<close>: only \<^verbatim>\<open>JSONDecodeError\<close> is caught; the handler decodes the bytes
  again. The text it returns is a Python \<^verbatim>\<open>str\<close>, the same kind of value as a parsed JSON
  string.\<close>

definition parse_data :: "pylib \<Rightarrow> body \<Rightarrow> error + json" where
  "parse_data L c =
     (case (case c of BodyStr s \<Rightarrow> Some s | BodyBytes b \<Rightarrow> utf8_decode b) of
        None \<Rightarrow> Inl UnicodeDecodeError
      | Some decoded \<Rightarrow>
          (case json_loads L decoded of
             Some data \<Rightarrow>
               (case check_api_error data of
                  Some e \<Rightarrow> Inl e
                | None \<Rightarrow> Inr data)
           | None \<Rightarrow>
               (case c of
                  BodyBytes b \<Rightarrow>
                    (case utf8_decode b of
                       None \<Rightarrow> Inl UnicodeDecodeError
                     | Some t \<Rightarrow> Inr (JStr t))
                | BodyStr s \<Rightarrow> Inr (JStr s))))"

section \<open>\<^verbatim>\<open>URLRequest.request_url\<close>\<close>

fun is_bytes :: "pvalue \<Rightarrow> bool" where
  "is_bytes (Atom (SBytes b)) = True"
| "is_bytes v = False"

fun decode_value :: "pvalue \<Rightarrow> error + pvalue" where
  "decode_value (Atom (SBytes b)) =
     (case utf8_decode b of
        None \<Rightarrow> Inl UnicodeDecodeError
      | Some t \<Rightarrow> Inr (Atom (SStr t)))"
| "decode_value v = Inr v"

text \<open>The dictionary comprehension of line 50, entry by entry.\<close>

fun decode_items :: "params \<Rightarrow> error + params" where
  "decode_items [] = Inr []"
| "decode_items ((k, v) # rest) =
     (case decode_value v of
        Inl e \<Rightarrow> Inl e
      | Inr v' \<Rightarrow>
          (case decode_items rest of
             Inl e \<Rightarrow> Inl e
           | Inr rest' \<Rightarrow> Inr ((k, v') # rest')))"

definition normalize_params :: "params \<Rightarrow> error + params" where
  "normalize_params ps =
     (if list_ex is_bytes (map snd ps) then decode_items ps else Inr ps)"

definition invalid_method_message :: "str \<Rightarrow> str" where
  "invalid_method_message method =
     ''M'' @ [CHR 0xC3, CHR 0xA9] @ ''todo HTTP inv'' @ [CHR 0xC3, CHR 0xA1] @ ''lido: '' @ method"

definition failure_message :: "str \<Rightarrow> str \<Rightarrow> str" where
  "failure_message method url =
     ''[URLRequest] Falha na requisi'' @ [CHR 0xC3, CHR 0xA7, CHR 0xC3, CHR 0xA3] @ ''o ''
       @ method @ '' '' @ url"

text \<open>The \<^verbatim>\<open>if\<close>/\<^verbatim>\<open>elif\<close> chain on the upper-cased method: which call is made on the
  session, or the \<^verbatim>\<open>ValueError\<close> of the last branch.\<close>

definition select_request ::
    "str \<Rightarrow> str \<Rightarrow> params \<Rightarrow> headers option \<Rightarrow> number \<Rightarrow> error + wire_request" where
  "select_request method url ps hs timeout =
     (if method = ''GET'' then Inr (Get (build_url url ps) hs timeout)
      else if method = ''POST'' then Inr (Post url ps hs timeout)
      else if method = ''DELETE'' then Inr (Delete url hs timeout)
      else if method = ''PUT'' then Inr (Put url ps hs timeout)
      else Inl (ValueError (invalid_method_message method)))"

fun is_request_exception :: "error \<Rightarrow> bool" where
  "is_request_exception (RequestException m) = True"
| "is_request_exception e = False"

definition request_url ::
    "pylib \<Rightarrow> transport \<Rightarrow> pystate \<Rightarrow> str \<Rightarrow> str \<Rightarrow> number \<Rightarrow> params option \<Rightarrow> headers option
      \<Rightarrow> call" where
  "request_url L net st url method timeout params hs =
     (let (session, st1) = get_session st;
          params1 = (case params of None \<Rightarrow> [] | Some ps \<Rightarrow> ps)
      in case normalize_params params1 of
           Inl e \<Rightarrow> \<lparr>outcome = Inl e, trace = [], after = st1\<rparr>
         | Inr params2 \<Rightarrow>
             (let method1 = str_upper L method in
              case select_request method1 url params2 hs timeout of
                Inl e \<Rightarrow> \<lparr>outcome = Inl e, trace = [], after = st1\<rparr>
              | Inr req \<Rightarrow>
                  (case net session req of
                     Inl e \<Rightarrow>
                       \<lparr>outcome = Inl e,
                        trace = Send session req #
                          (if is_request_exception e
                           then [LogException (failure_message method1 url)] else []),
                        after = st1\<rparr>
                   | Inr response \<Rightarrow>
                       \<lparr>outcome =
                          (if \<not> ok response then Inl (ApiError (OfResponse response))
                           else parse_data L (BodyBytes (content response))),
                        trace = [Send session req],
                        after = st1\<rparr>)))"

definition default_timeout :: number where
  "default_timeout = NInt 10"

definition fresh :: pystate where
  "fresh = \<lparr>heap = [], cls_session = None\<rparr>"

section \<open>Observations and relations used by the properties\<close>

text \<open>\<open>text_for a a'\<close>: \<open>a'\<close> is \<open>a\<close>, or \<open>a\<close> is a byte string and \<open>a'\<close> the text it
  decodes to. \<open>decoded_params ps qs\<close>: \<open>qs\<close> is the mapping \<open>ps\<close> with any of its byte
  strings, as values or as elements of sequence values, replaced by their text.\<close>

fun text_for :: "scalar \<Rightarrow> scalar \<Rightarrow> bool" where
  "text_for (SBytes b) (SStr t) = (utf8_decode b = Some t)"
| "text_for a a' = (a = a')"

fun decoded_value :: "pvalue \<Rightarrow> pvalue \<Rightarrow> bool" where
  "decoded_value (Atom a) (Atom a') = text_for a a'"
| "decoded_value (PList xs) (PList ys) = list_all2 text_for xs ys"
| "decoded_value (PTuple xs) (PTuple ys) = list_all2 text_for xs ys"
| "decoded_value v v' = False"

definition decoded_params :: "params \<Rightarrow> params \<Rightarrow> bool" where
  "decoded_params ps qs =
     list_all2 (\<lambda>p q. fst p = fst q \<and> decoded_value (snd p) (snd q)) ps qs"

text \<open>Whether line 50 can decode a value: every value but an ill-formed byte string.\<close>

fun decodes :: "pvalue \<Rightarrow> bool" where
  "decodes (Atom (SBytes b)) = (utf8_decode b \<noteq> None)"
| "decodes v = True"

text \<open>One process making requests one after the other: each starts in the state the
  previous one left.\<close>

record invocation =
  arg_lib :: pylib
  arg_net :: transport
  arg_url :: str
  arg_method :: str
  arg_timeout :: number
  arg_params :: "params option"
  arg_headers :: "headers option"

fun run :: "pystate \<Rightarrow> invocation list \<Rightarrow> call list" where
  "run st [] = []"
| "run st (i # rest) =
     (let c = request_url (arg_lib i) (arg_net i) st (arg_url i) (arg_method i) (arg_timeout i)
                (arg_params i) (arg_headers i)
      in c # run (after c) rest)"

section \<open>A concrete library and server\<close>

text \<open>\<^verbatim>\<open>str.upper\<close> on ASCII text, and \<^verbatim>\<open>json.loads\<close> on the bodies of the examples.\<close>

definition upper_char :: "char \<Rightarrow> char" where
  "upper_char c =
     (case map_of (zip ''abcdefghijklmnopqrstuvwxyz'' ''ABCDEFGHIJKLMNOPQRSTUVWXYZ'') c of
        Some u \<Rightarrow> u
      | None \<Rightarrow> c)"

definition ascii_upper :: "str \<Rightarrow> str" where
  "ascii_upper s = map upper_char s"

definition sample_loads :: "str \<Rightarrow> json option" where
  \<open>sample_loads s =
     (if s = ''{"result":"error","errors":["bad id"]}''
      then Some (JDict [(''result'', JStr ''error''), (''errors'', JList [JStr ''bad id''])])
      else if s = ''[{"error":"gone"},{"id":7}]''
      then Some (JList [JDict [(''error'', JStr ''gone'')], JDict [(''id'', JInt 7)]])
      else if s = ''{"data":[1,2,3]}''
      then Some (JDict [(''data'', JList [JInt 1, JInt 2, JInt 3])])
      else if s = ''[{"id":7},{"error":"gone"}]''
      then Some (JList [JDict [(''id'', JInt 7)], JDict [(''error'', JStr ''gone'')]])
      else if s = ''42'' then Some (JInt 42)
      else None)\<close>

definition sample_lib :: pylib where
  "sample_lib = \<lparr>str_upper = ascii_upper, json_loads = sample_loads\<rparr>"

definition reply :: "nat \<Rightarrow> bytes \<Rightarrow> transport" where
  "reply status b = (\<lambda>s req. Inr \<lparr>status_code = status, content = b, response_headers = []\<rparr>)"

definition sample_params :: params where
  "sample_params =
     [(''title'', Atom (SStr ''one piece'')), (''year'', Atom SNone),
      (''ids[]'', PList [SInt 1, SInt 2])]"

definition ping_call :: invocation where
  "ping_call =
     \<lparr>arg_lib = sample_lib, arg_net = reply 200 ''pong'',
      arg_url = ''https://api.mangadex.org/ping'', arg_method = ''get'',
      arg_timeout = default_timeout, arg_params = None, arg_headers = None\<rparr>"

section \<open>Properties\<close>

lemma params_tuple_append:
  "params_tuple (ps @ qs) = params_tuple ps @ params_tuple qs"
  by (induction ps) (auto split: pvalue.splits scalar.splits)

lemma params_tuple_source:
  "(k, x) \<in> set (params_tuple ps) \<Longrightarrow> \<exists>v. (k, v) \<in> set ps \<and> v \<noteq> Atom SNone"
  by (induction ps rule: params_tuple.induct) (fastforce split: pvalue.splits scalar.splits)+

lemma params_tuple_filter_keys:
  "params_tuple (filter (\<lambda>p. Q (fst p)) ps) = filter (\<lambda>p. Q (fst p)) (params_tuple ps)"
  by (induction ps) (auto split: pvalue.splits scalar.splits)

lemma none_key_absent:
  assumes "distinct (map fst ps)" and "(k, Atom SNone) \<in> set ps"
  shows "k \<notin> fst ` set (params_tuple ps)"
proof
  assume "k \<in> fst ` set (params_tuple ps)"
  then obtain x where "(k, x) \<in> set (params_tuple ps)" by auto
  then obtain v where v: "(k, v) \<in> set ps" "v \<noteq> Atom SNone"
    using params_tuple_source by blast
  from assms v(1) have "v = Atom SNone"
    by (meson eq_key_imp_eq_value)
  with v(2) show False by simp
qed

text \<open>
  Claim C5. In a parameter mapping, a key whose value is \<^verbatim>\<open>None\<close> contributes no pair: no
  pair of \<^verbatim>\<open>params_tuple\<close> has that key, the encoded string is the one of the mapping
  without the key, and so is the query string of the URL a GET passes to \<^verbatim>\<open>session.get\<close>.
\<close>

theorem null_parameter_is_skipped:
  assumes "distinct (map fst ps)" and "(k, Atom SNone) \<in> set ps"
  shows "k \<notin> fst ` set (params_tuple ps)
       \<and> encode_parameters ps = encode_parameters (filter (\<lambda>p. fst p \<noteq> k) ps)
       \<and> select_request ''GET'' url ps hs timeout =
           Inr (Get (url @ ''?'' @ encode_parameters (filter (\<lambda>p. fst p \<noteq> k) ps)) hs timeout)"
proof -
  have absent: "k \<notin> fst ` set (params_tuple ps)"
    using assms by (rule none_key_absent)
  then have "filter (\<lambda>p. fst p \<noteq> k) (params_tuple ps) = params_tuple ps"
    by (auto simp: filter_id_conv)
  then have same: "encode_parameters (filter (\<lambda>p. fst p \<noteq> k) ps) = encode_parameters ps"
    by (simp add: encode_parameters_def params_tuple_filter_keys [of "\<lambda>x. x \<noteq> k"])
  from assms(2) have "ps \<noteq> []" by auto
  then have "select_request ''GET'' url ps hs timeout =
      Inr (Get (url @ ''?'' @ encode_parameters ps) hs timeout)"
    by (simp add: select_request_def build_url_def)
  with absent same show ?thesis by simp
qed

lemmas encode_simps =
  encode_parameters_def urlencode_def quote_pair_def quote_plus_def quote_byte_def
  always_safe_def hex_digit_def str_of_int_def str_of_nat.simps digit_char_def

theorem null_parameter_is_skipped_witness:
  "distinct (map fst sample_params) \<and> (''year'', Atom SNone) \<in> set sample_params
   \<and> ''year'' \<notin> fst ` set (params_tuple sample_params)
   \<and> encode_parameters sample_params = ''title=one+piece&ids%5B%5D=1&ids%5B%5D=2''
   \<and> select_request ''GET'' ''https://api.mangadex.org/manga'' sample_params None (NInt 10) =
       Inr (Get ''https://api.mangadex.org/manga?title=one+piece&ids%5B%5D=1&ids%5B%5D=2''
              None (NInt 10))"
proof -
  have h1: "distinct (map fst sample_params)"
    by (simp add: sample_params_def)
  have h2: "(''year'', Atom SNone) \<in> set sample_params"
    by (simp add: sample_params_def)
  have e: "encode_parameters (filter (\<lambda>p. fst p \<noteq> ''year'') sample_params) =
      ''title=one+piece&ids%5B%5D=1&ids%5B%5D=2''"
    by (simp add: sample_params_def encode_simps)
  from null_parameter_is_skipped [OF h1 h2, of "''https://api.mangadex.org/manga''" None "NInt 10"]
    h1 h2 e
  show ?thesis by simp
qed


text \<open>
  Claim C6. A list or tuple value under a key \<open>k\<close> expands to one pair per element,
  all with key \<open>k\<close>, in the order of the elements and at the place of the key in the
  mapping's iteration order; the encoded string joins the quoted pairs in that order, and
  when \<open>k\<close> occurs once these are exactly the pairs with key \<open>k\<close>.
\<close>

theorem sequence_parameter_expands_in_order:
  assumes "v = PList items \<or> v = PTuple items"
  shows "params_tuple (before @ (k, v) # rest) =
           params_tuple before @ map (Pair k) items @ params_tuple rest
       \<and> encode_parameters (before @ (k, v) # rest) =
           str_join ''&''
             (map quote_pair (params_tuple before)
              @ map (\<lambda>x. quote_plus k @ ''='' @ quote_value x) items
              @ map quote_pair (params_tuple rest))
       \<and> (k \<notin> fst ` set before \<union> fst ` set rest \<longrightarrow>
            filter (\<lambda>p. fst p = k) (params_tuple (before @ (k, v) # rest)) = map (Pair k) items)"
proof -
  have pairs: "params_tuple (before @ (k, v) # rest) =
      params_tuple before @ map (Pair k) items @ params_tuple rest"
    using assms by (auto simp: params_tuple_append)
  have enc: "encode_parameters (before @ (k, v) # rest) =
      str_join ''&''
        (map quote_pair (params_tuple before)
         @ map (\<lambda>x. quote_plus k @ ''='' @ quote_value x) items
         @ map quote_pair (params_tuple rest))"
    by (simp add: encode_parameters_def urlencode_def pairs quote_pair_def comp_def)
  have only: "filter (\<lambda>p. fst p = k) (params_tuple (before @ (k, v) # rest)) = map (Pair k) items"
    if "k \<notin> fst ` set before \<union> fst ` set rest"
  proof -
    from that params_tuple_source have "\<And>x. (k, x) \<notin> set (params_tuple before)"
      and "\<And>x. (k, x) \<notin> set (params_tuple rest)"
      by (fastforce simp: image_iff)+
    then have "filter (\<lambda>p. fst p = k) (params_tuple before) = []"
      and "filter (\<lambda>p. fst p = k) (params_tuple rest) = []"
      by (auto simp: filter_empty_conv)
    then show ?thesis
      by (simp add: pairs filter_map comp_def)
  qed
  from pairs enc only show ?thesis by blast
qed

theorem sequence_parameter_expands_in_order_witness:
  "params_tuple [(''limit'', Atom (SInt 10)), (''ids[]'', PList [SStr ''a'', SStr ''b'', SStr ''c'']),
                 (''order'', Atom (SStr ''asc''))]
     = [(''limit'', SInt 10), (''ids[]'', SStr ''a''), (''ids[]'', SStr ''b''), (''ids[]'', SStr ''c''),
        (''order'', SStr ''asc'')]
   \<and> encode_parameters [(''limit'', Atom (SInt 10)), (''ids[]'', PList [SStr ''a'', SStr ''b'', SStr ''c'']),
                 (''order'', Atom (SStr ''asc''))]
     = ''limit=10&ids%5B%5D=a&ids%5B%5D=b&ids%5B%5D=c&order=asc''
   \<and> filter (\<lambda>p. fst p = ''ids[]'')
        (params_tuple [(''limit'', Atom (SInt 10)), (''ids[]'', PList [SStr ''a'', SStr ''b'', SStr ''c'']),
                 (''order'', Atom (SStr ''asc''))])
     = [(''ids[]'', SStr ''a''), (''ids[]'', SStr ''b''), (''ids[]'', SStr ''c'')]"
  using sequence_parameter_expands_in_order
    [of "PList [SStr ''a'', SStr ''b'', SStr ''c'']" "[SStr ''a'', SStr ''b'', SStr ''c'']"
        "[(''limit'', Atom (SInt 10))]" "''ids[]''" "[(''order'', Atom (SStr ''asc''))]"]
  by (simp add: encode_simps)


lemma utf8_decode_same: "utf8_decode b = Some t \<Longrightarrow> t = b"
  by (simp add: utf8_decode_def split: if_splits)

lemma text_for_refl: "text_for a a"
  by (cases a) simp_all

lemma text_for_quote_value: "text_for a a' \<Longrightarrow> quote_value a = quote_value a'"
  by (cases "(a, a')" rule: text_for.cases) (auto dest: utf8_decode_same)

lemma text_for_none: "text_for a a' \<Longrightarrow> a = SNone \<longleftrightarrow> a' = SNone"
  by (cases "(a, a')" rule: text_for.cases) auto

lemma text_for_items:
  "list_all2 text_for xs ys \<Longrightarrow>
   map quote_pair (map (Pair k) xs) = map quote_pair (map (Pair k) ys)"
  by (induction xs ys rule: list_all2_induct) (auto simp: quote_pair_def text_for_quote_value)

lemma params_tuple_atom: "a \<noteq> SNone \<Longrightarrow> params_tuple [(k, Atom a)] = [(k, a)]"
  by (cases a) simp_all

lemma decoded_value_pairs:
  assumes "decoded_value v w"
  shows "map quote_pair (params_tuple [(k, v)]) = map quote_pair (params_tuple [(k, w)])"
proof (cases "(v, w)" rule: decoded_value.cases)
  case (1 a a')
  with assms have t: "text_for a a'" by simp
  show ?thesis
  proof (cases "a = SNone")
    case True
    with t 1 show ?thesis by (simp add: text_for_none)
  next
    case False
    with t have "a' \<noteq> SNone" by (simp add: text_for_none)
    with False 1 have "params_tuple [(k, v)] = [(k, a)]" "params_tuple [(k, w)] = [(k, a')]"
      using params_tuple_atom [of a k] params_tuple_atom [of a' k] by simp_all
    with text_for_quote_value [OF t] show ?thesis
      by (simp add: quote_pair_def)
  qed
next
  case (2 xs ys)
  with assms show ?thesis using text_for_items [of xs ys k] by simp
next
  case (3 xs ys)
  with assms show ?thesis using text_for_items [of xs ys k] by simp
qed (use assms in auto)

lemma decoded_params_pairs:
  "decoded_params ps qs \<Longrightarrow>
   map quote_pair (params_tuple ps) = map quote_pair (params_tuple qs)"
  unfolding decoded_params_def
proof (induction ps qs rule: list_all2_induct)
  case Nil
  show ?case by simp
next
  case (Cons p ps q qs)
  obtain k v where p: "p = (k, v)" by (cases p)
  obtain k' w where q: "q = (k', w)" by (cases q)
  from Cons.hyps(1) p q have k: "k' = k" and vw: "decoded_value v w" by simp_all
  have "params_tuple (p # ps) = params_tuple [(k, v)] @ params_tuple ps"
    using params_tuple_append [of "[(k, v)]" ps] p by simp
  moreover have "params_tuple (q # qs) = params_tuple [(k, w)] @ params_tuple qs"
    using params_tuple_append [of "[(k, w)]" qs] q k by simp
  ultimately show ?case
    using decoded_value_pairs [OF vw, of k] Cons.IH by simp
qed

lemma decoded_params_empty: "decoded_params ps qs \<Longrightarrow> ps = [] \<longleftrightarrow> qs = []"
  by (auto simp: decoded_params_def)

lemma decode_items_no_bytes: "\<not> list_ex is_bytes (map snd ps) \<Longrightarrow> decode_items ps = Inr ps"
proof (induction ps)
  case Nil
  show ?case by simp
next
  case (Cons p ps)
  obtain k v where p: "p = (k, v)" by (cases p)
  from Cons.prems p have "\<not> is_bytes v" by simp
  then have "decode_value v = Inr v"
    by (cases v rule: is_bytes.cases) simp_all
  with Cons p show ?case by simp
qed

lemma normalize_params_decode_items: "normalize_params ps = decode_items ps"
  by (simp add: normalize_params_def decode_items_no_bytes)

lemma decoded_value_decode:
  assumes "decoded_value v w"
  shows "(\<exists>e. decode_value v = Inl e \<and> decode_value w = Inl e)
       \<or> (\<exists>v' w'. decode_value v = Inr v' \<and> decode_value w = Inr w' \<and> decoded_value v' w')"
proof (cases "(v, w)" rule: decoded_value.cases)
  case (1 a a')
  with assms have t: "text_for a a'" by simp
  then show ?thesis
    using 1 by (cases "(a, a')" rule: text_for.cases)
      (auto simp: text_for_refl split: option.splits dest: utf8_decode_same)
qed (use assms in auto)

lemma decoded_params_decode:
  "decoded_params ps qs \<Longrightarrow>
   (\<exists>e. decode_items ps = Inl e \<and> decode_items qs = Inl e)
   \<or> (\<exists>ps' qs'. decode_items ps = Inr ps' \<and> decode_items qs = Inr qs' \<and> decoded_params ps' qs')"
  unfolding decoded_params_def
proof (induction ps qs rule: list_all2_induct)
  case Nil
  show ?case by simp
next
  case (Cons p ps q qs)
  obtain k v where p: "p = (k, v)" by (cases p)
  obtain k' w where q: "q = (k', w)" by (cases q)
  from Cons.hyps(1) p q have k: "k' = k" and vw: "decoded_value v w" by simp_all
  from decoded_value_decode [OF vw] show ?case
  proof (elim disjE exE conjE)
    fix e assume "decode_value v = Inl e" "decode_value w = Inl e"
    with p q show ?thesis by simp
  next
    fix v' w'
    assume d: "decode_value v = Inr v'" "decode_value w = Inr w'" "decoded_value v' w'"
    from Cons.IH show ?thesis
    proof (elim disjE exE conjE)
      fix e assume "decode_items ps = Inl e" "decode_items qs = Inl e"
      with d p q show ?thesis by simp
    next
      fix ps' qs'
      assume "decode_items ps = Inr ps'" "decode_items qs = Inr qs'"
        "list_all2 (\<lambda>p q. fst p = fst q \<and> decoded_value (snd p) (snd q)) ps' qs'"
      with d p q k show ?thesis by simp
    qed
  qed
qed

lemma decoded_params_encode:
  "decoded_params ps qs \<Longrightarrow> encode_parameters ps = encode_parameters qs"
  by (simp add: encode_parameters_def urlencode_def decoded_params_pairs)

lemma decoded_params_build_url:
  "decoded_params ps qs \<Longrightarrow> build_url url ps = build_url url qs"
  using decoded_params_empty [of ps qs] by (simp add: build_url_def decoded_params_encode)

text \<open>
  Claim C7. Replacing byte strings of a parameter mapping, whether values or elements of
  sequence values, by the text they decode to leaves the encoded string unchanged: as
  \<^verbatim>\<open>__encode_parameters\<close> computes it, after the normalization of \<^verbatim>\<open>request_url\<close>, and in
  the whole of a GET call.
\<close>

theorem bytes_encode_like_their_text:
  assumes "decoded_params ps qs"
  shows "encode_parameters ps = encode_parameters qs
       \<and> (\<forall>ps'. normalize_params ps = Inr ps' \<longrightarrow>
            (\<exists>qs'. normalize_params qs = Inr qs' \<and> encode_parameters ps' = encode_parameters qs'))
       \<and> (str_upper L method = ''GET'' \<longrightarrow>
            request_url L net st url method timeout (Some ps) hs =
            request_url L net st url method timeout (Some qs) hs)"
proof -
  have a: "encode_parameters ps = encode_parameters qs"
    using assms by (rule decoded_params_encode)
  from decoded_params_decode [OF assms]
  consider (err) e where "normalize_params ps = Inl e" "normalize_params qs = Inl e"
    | (fine) ps' qs' where "normalize_params ps = Inr ps'" "normalize_params qs = Inr qs'"
        "decoded_params ps' qs'"
    by (auto simp: normalize_params_decode_items)
  then show ?thesis
  proof cases
    case err
    with a show ?thesis by (simp add: request_url_def)
  next
    case fine
    from fine(3) have "build_url url ps' = build_url url qs'"
      by (rule decoded_params_build_url)
    with a fine decoded_params_encode [OF fine(3)] show ?thesis
      by (simp add: request_url_def select_request_def)
  qed
qed

lemmas run_simps =
  request_url_def get_session_def new_session_def new_obj_def mount_def fresh_def
  normalize_params_def select_request_def build_url_def sample_lib_def ascii_upper_def
  upper_char_def reply_def default_timeout_def parse_data_def utf8_decode_def
  check_api_error_def sample_loads_def ok_def Let_def

theorem bytes_encode_like_their_text_witness:
  "decoded_params
     [(''title'', Atom (SBytes [CHR ''c'', CHR ''a'', CHR ''f'', CHR 0xC3, CHR 0xA9])),
      (''tags'', PList [SBytes ''a b'', SInt 3])]
     [(''title'', Atom (SStr [CHR ''c'', CHR ''a'', CHR ''f'', CHR 0xC3, CHR 0xA9])),
      (''tags'', PList [SStr ''a b'', SInt 3])]
   \<and> encode_parameters
       [(''title'', Atom (SBytes [CHR ''c'', CHR ''a'', CHR ''f'', CHR 0xC3, CHR 0xA9])),
        (''tags'', PList [SBytes ''a b'', SInt 3])] = ''title=caf%C3%A9&tags=a+b&tags=3''
   \<and> encode_parameters
       [(''title'', Atom (SStr [CHR ''c'', CHR ''a'', CHR ''f'', CHR 0xC3, CHR 0xA9])),
        (''tags'', PList [SStr ''a b'', SInt 3])] = ''title=caf%C3%A9&tags=a+b&tags=3''
   \<and> request_url sample_lib (reply 200 ''pong'') fresh ''https://api.mangadex.org/manga'' ''get''
        default_timeout
        (Some [(''title'', Atom (SBytes [CHR ''c'', CHR ''a'', CHR ''f'', CHR 0xC3, CHR 0xA9])),
               (''tags'', PList [SBytes ''a b'', SInt 3])]) None
     = request_url sample_lib (reply 200 ''pong'') fresh ''https://api.mangadex.org/manga'' ''get''
        default_timeout
        (Some [(''title'', Atom (SStr [CHR ''c'', CHR ''a'', CHR ''f'', CHR 0xC3, CHR 0xA9])),
               (''tags'', PList [SStr ''a b'', SInt 3])]) None"
proof -
  have h: "decoded_params
     [(''title'', Atom (SBytes [CHR ''c'', CHR ''a'', CHR ''f'', CHR 0xC3, CHR 0xA9])),
      (''tags'', PList [SBytes ''a b'', SInt 3])]
     [(''title'', Atom (SStr [CHR ''c'', CHR ''a'', CHR ''f'', CHR 0xC3, CHR 0xA9])),
      (''tags'', PList [SStr ''a b'', SInt 3])]"
    by (simp add: decoded_params_def utf8_decode_def)
  have m: "str_upper sample_lib ''get'' = ''GET''"
    by (simp add: sample_lib_def ascii_upper_def upper_char_def)
  have e: "encode_parameters
       [(''title'', Atom (SStr [CHR ''c'', CHR ''a'', CHR ''f'', CHR 0xC3, CHR 0xA9])),
        (''tags'', PList [SStr ''a b'', SInt 3])] = ''title=caf%C3%A9&tags=a+b&tags=3''"
    by (simp add: encode_simps)
  from bytes_encode_like_their_text [OF h, of sample_lib "''get''" "reply 200 ''pong''" fresh
      "''https://api.mangadex.org/manga''" default_timeout None] h m e
  show ?thesis by simp
qed

text \<open>
  Claim C8 at the input \<^verbatim>\<open>params={"year": None}\<close> of a GET. Every entry of the mapping is
  skipped and no pair is encoded, so by the claim the URL is used unmodified. The test of
  \<^verbatim>\<open>__build_url\<close> is on the mapping: for the empty mapping it returns the URL as given,
  for this one it returns the URL followed by \<^verbatim>\<open>?\<close>, and that is the URL passed to
  \<^verbatim>\<open>session.get\<close>.
\<close>

theorem all_null_get_keeps_question_mark:
  "params_tuple [(''year'', Atom SNone)] = []
   \<and> encode_parameters [(''year'', Atom SNone)] = []
   \<and> build_url ''https://api.mangadex.org/ping'' [] = ''https://api.mangadex.org/ping''
   \<and> build_url ''https://api.mangadex.org/ping'' [(''year'', Atom SNone)] =
       ''https://api.mangadex.org/ping?''
   \<and> trace (request_url sample_lib (reply 200 ''pong'') fresh ''https://api.mangadex.org/ping''
        ''GET'' default_timeout (Some [(''year'', Atom SNone)]) None)
     = [Send 0 (Get ''https://api.mangadex.org/ping?'' None (NInt 10))]"
  by (simp add: run_simps encode_simps)

lemma decode_value_decodes: "decodes v \<Longrightarrow> \<exists>v'. decode_value v = Inr v'"
  by (cases v rule: decodes.cases) auto

lemma decode_value_not_decodes: "\<not> decodes v \<Longrightarrow> decode_value v = Inl UnicodeDecodeError"
  by (cases v rule: decodes.cases) auto

lemma decode_items_decodes:
  "list_all decodes (map snd ps) \<Longrightarrow> \<exists>ps'. decode_items ps = Inr ps'"
proof (induction ps)
  case Nil
  show ?case by simp
next
  case (Cons p ps)
  obtain k v where p: "p = (k, v)" by (cases p)
  from Cons.prems p obtain v' where "decode_value v = Inr v'"
    using decode_value_decodes by auto
  moreover from Cons obtain ps' where "decode_items ps = Inr ps'" by auto
  ultimately show ?case using p by simp
qed

lemma decode_items_not_decodes:
  "\<not> list_all decodes (map snd ps) \<Longrightarrow> decode_items ps = Inl UnicodeDecodeError"
proof (induction ps)
  case Nil
  then show ?case by simp
next
  case (Cons p ps)
  obtain k v where p: "p = (k, v)" by (cases p)
  show ?case
  proof (cases "decodes v")
    case True
    with Cons p have "decode_items ps = Inl UnicodeDecodeError" by simp
    moreover from True obtain v' where "decode_value v = Inr v'"
      using decode_value_decodes by auto
    ultimately show ?thesis using p by simp
  next
    case False
    with p show ?thesis by (simp add: decode_value_not_decodes)
  qed
qed

text \<open>
  Claim C3, as stated, fails: the parameters are normalized before the method is looked
  at, so a call with method \<^verbatim>\<open>patch\<close> and an ill-formed byte string among its parameter
  values raises \<^verbatim>\<open>UnicodeDecodeError\<close>, not the error for an invalid method.
\<close>

theorem invalid_method_bad_bytes_counterexample:
  "str_upper sample_lib ''patch'' = ''PATCH''
   \<and> outcome (request_url sample_lib (reply 200 ''pong'') fresh ''https://api.mangadex.org/manga''
        ''patch'' default_timeout (Some [(''title'', Atom (SBytes [CHR 0xFF]))]) None)
     = Inl UnicodeDecodeError"
  by (simp add: run_simps)

text \<open>
  Claim C3, amended. When the upper-cased method is none of GET, POST, PUT and DELETE, the
  call sends nothing and logs nothing, and it fails: with the \<^verbatim>\<open>ValueError\<close> for an invalid
  method when every parameter value can be decoded, and with \<^verbatim>\<open>UnicodeDecodeError\<close> when a
  byte string among the values is ill-formed.
\<close>

theorem invalid_method_fails_before_any_send:
  assumes "str_upper L method \<notin> {''GET'', ''POST'', ''PUT'', ''DELETE''}"
  shows "trace (request_url L net st url method timeout ps hs) = []
       \<and> outcome (request_url L net st url method timeout ps hs) =
           (if list_all decodes (map snd (case ps of None \<Rightarrow> [] | Some qs \<Rightarrow> qs))
            then Inl (ValueError (invalid_method_message (str_upper L method)))
            else Inl UnicodeDecodeError)"
proof (cases "list_all decodes (map snd (case ps of None \<Rightarrow> [] | Some qs \<Rightarrow> qs))")
  case True
  then obtain qs' where "normalize_params (case ps of None \<Rightarrow> [] | Some qs \<Rightarrow> qs) = Inr qs'"
    using decode_items_decodes by (auto simp: normalize_params_decode_items)
  with True assms show ?thesis
    by (simp add: request_url_def select_request_def Let_def split: prod.splits)
next
  case False
  then have "normalize_params (case ps of None \<Rightarrow> [] | Some qs \<Rightarrow> qs) = Inl UnicodeDecodeError"
    by (simp add: normalize_params_decode_items decode_items_not_decodes)
  with False show ?thesis
    by (simp add: request_url_def Let_def split: prod.splits)
qed

theorem invalid_method_fails_before_any_send_witness:
  "str_upper sample_lib ''PaTcH'' \<notin> {''GET'', ''POST'', ''PUT'', ''DELETE''}
   \<and> trace (request_url sample_lib (reply 200 ''pong'') fresh ''https://api.mangadex.org/manga''
        ''PaTcH'' default_timeout (Some sample_params) None) = []
   \<and> outcome (request_url sample_lib (reply 200 ''pong'') fresh ''https://api.mangadex.org/manga''
        ''PaTcH'' default_timeout (Some sample_params) None)
     = Inl (ValueError (invalid_method_message ''PATCH''))"
proof -
  have h: "str_upper sample_lib ''PaTcH'' \<notin> {''GET'', ''POST'', ''PUT'', ''DELETE''}"
    by (simp add: sample_lib_def ascii_upper_def upper_char_def)
  have u: "str_upper sample_lib ''PaTcH'' = ''PATCH''"
    by (simp add: sample_lib_def ascii_upper_def upper_char_def)
  have d: "list_all decodes (map snd (case Some sample_params of None \<Rightarrow> [] | Some qs \<Rightarrow> qs))"
    by (simp add: sample_params_def)
  from invalid_method_fails_before_any_send [OF h, of "reply 200 ''pong''" fresh
      "''https://api.mangadex.org/manga''" default_timeout "Some sample_params" None] h
  show ?thesis unfolding u using d by simp
qed


lemma request_url_response:
  assumes "Send s req \<in> set (trace (request_url L net st url method timeout ps hs))"
      and "net s req = Inr r"
  shows "outcome (request_url L net st url method timeout ps hs) =
           (if \<not> ok r then Inl (ApiError (OfResponse r))
            else parse_data L (BodyBytes (content r)))"
  using assms
  by (auto simp: request_url_def Let_def split: prod.splits sum.splits if_splits)

lemma success_ok: "200 \<le> status_code r \<Longrightarrow> status_code r < 300 \<Longrightarrow> ok r"
  by (simp add: ok_def)

lemma request_url_success:
  assumes "Send s req \<in> set (trace (request_url L net st url method timeout ps hs))"
      and "net s req = Inr r"
      and "200 \<le> status_code r" and "status_code r < 300"
      and "utf8_decode (content r) = Some text"
  shows "outcome (request_url L net st url method timeout ps hs) =
           (case json_loads L text of
              Some data \<Rightarrow> (case check_api_error data of Some e \<Rightarrow> Inl e | None \<Rightarrow> Inr data)
            | None \<Rightarrow> Inr (JStr text))"
  using request_url_response [OF assms(1,2)] success_ok [OF assms(3,4)] assms(5)
  by (simp add: parse_data_def split: option.splits)

lemma undecodable_body_raises:
  assumes "Send s req \<in> set (trace (request_url L net st url method timeout ps hs))"
      and "net s req = Inr r" and "ok r" and "utf8_decode (content r) = None"
  shows "outcome (request_url L net st url method timeout ps hs) = Inl UnicodeDecodeError"
  using request_url_response [OF assms(1,2)] assms(3,4) by (simp add: parse_data_def)

lemma request_url_without_loads:
  assumes "Send s req \<in> set (trace (request_url L net st url method timeout ps hs))"
      and "net s req = Inr r" and "\<not> ok r"
  shows "request_url (L\<lparr>json_loads := loads\<rparr>) net st url method timeout ps hs =
         request_url L net st url method timeout ps hs"
  using assms
  by (auto simp: request_url_def Let_def split: prod.splits sum.splits if_splits)

text \<open>
  Claim C1. The call received a response with a 2xx status whose body decodes and parses
  to \<open>v\<close>. If \<open>v\<close>, or its first element when \<open>v\<close> is a non-empty list, is a dictionary
  \<open>d\<close> whose \<^verbatim>\<open>result\<close> is \<^verbatim>\<open>"error"\<close> or which has a key \<^verbatim>\<open>error\<close>, the call raises
  \<^verbatim>\<open>ApiError\<close> constructed from \<open>d\<close>'s \<^verbatim>\<open>errors\<close> field, or from the fixed text when \<open>d\<close>
  has none.
\<close>

theorem embedded_error_raises_api_error:
  assumes "Send s req \<in> set (trace (request_url L net st url method timeout ps hs))"
      and "net s req = Inr r"
      and "200 \<le> status_code r" and "status_code r < 300"
      and "utf8_decode (content r) = Some text"
      and "json_loads L text = Some v"
      and "(case v of JList (x # xs) \<Rightarrow> x | _ \<Rightarrow> v) = JDict d"
      and "map_of d ''result'' = Some (JStr ''error'') \<or> ''error'' \<in> fst ` set d"
  shows "outcome (request_url L net st url method timeout ps hs) =
           Inl (ApiError (OfData (case map_of d ''errors'' of
                                    Some errors \<Rightarrow> errors
                                  | None \<Rightarrow> JStr ''Erro desconhecido'')))"
proof -
  from assms(7,8) have "check_api_error v =
      Some (ApiError (OfData (case map_of d ''errors'' of
                                Some errors \<Rightarrow> errors
                              | None \<Rightarrow> JStr ''Erro desconhecido'')))"
    by (auto simp: check_api_error_def)
  with request_url_success [OF assms(1-5)] assms(6) show ?thesis by simp
qed

theorem embedded_error_raises_api_error_witness:
  \<open>outcome (request_url sample_lib
      (reply 200 ''{"result":"error","errors":["bad id"]}'') fresh
      ''https://api.mangadex.org/manga/0'' ''get'' default_timeout None None)
    = Inl (ApiError (OfData (JList [JStr ''bad id''])))
   \<and> trace (request_url sample_lib
      (reply 200 ''{"result":"error","errors":["bad id"]}'') fresh
      ''https://api.mangadex.org/manga/0'' ''get'' default_timeout None None)
    = [Send 0 (Get ''https://api.mangadex.org/manga/0'' None (NInt 10))]\<close>
proof -
  let ?b = \<open>''{"result":"error","errors":["bad id"]}''\<close>
  let ?r = "\<lparr>status_code = 200, content = ?b, response_headers = []\<rparr>"
  let ?d = "[(''result'', JStr ''error''), (''errors'', JList [JStr ''bad id''])]"
  have t: "trace (request_url sample_lib (reply 200 ?b) fresh
      ''https://api.mangadex.org/manga/0'' ''get'' default_timeout None None)
    = [Send 0 (Get ''https://api.mangadex.org/manga/0'' None (NInt 10))]"
    by (simp add: run_simps)
  then have h1: "Send 0 (Get ''https://api.mangadex.org/manga/0'' None (NInt 10))
      \<in> set (trace (request_url sample_lib (reply 200 ?b) fresh
      ''https://api.mangadex.org/manga/0'' ''get'' default_timeout None None))"
    by simp
  have h2: "reply 200 ?b 0 (Get ''https://api.mangadex.org/manga/0'' None (NInt 10)) = Inr ?r"
    by (simp add: reply_def)
  have h3: "200 \<le> status_code ?r" and h4: "status_code ?r < 300" by simp_all
  have h5: "utf8_decode (content ?r) = Some ?b" by (simp add: utf8_decode_def)
  have h6: "json_loads sample_lib ?b = Some (JDict ?d)"
    by (simp add: sample_lib_def sample_loads_def)
  have h7: "(case JDict ?d of JList (x # xs) \<Rightarrow> x | _ \<Rightarrow> JDict ?d) = JDict ?d" by simp
  have h8: "map_of ?d ''result'' = Some (JStr ''error'') \<or> ''error'' \<in> fst ` set ?d" by simp
  from embedded_error_raises_api_error [OF h1 h2 h3 h4 h5 h6 h7 h8] t
  show ?thesis by simp
qed


text \<open>
  Claim C2. When the response received is not \<^verbatim>\<open>ok\<close> (a status from 400 to 599, such as
  404), the call raises \<^verbatim>\<open>ApiError\<close> constructed from the response itself, whatever the
  body; and the whole call is the same whatever \<^verbatim>\<open>json.loads\<close> would do: the body is not
  parsed.
\<close>

theorem http_failure_raises_api_error:
  assumes "Send s req \<in> set (trace (request_url L net st url method timeout ps hs))"
      and "net s req = Inr r"
      and "\<not> ok r"
  shows "outcome (request_url L net st url method timeout ps hs) = Inl (ApiError (OfResponse r))
       \<and> (\<forall>loads. request_url (L\<lparr>json_loads := loads\<rparr>) net st url method timeout ps hs =
                    request_url L net st url method timeout ps hs)"
  using request_url_response [OF assms(1,2)] request_url_without_loads [OF assms] assms(3)
  by simp

theorem http_failure_raises_api_error_witness:
  \<open>\<not> ok \<lparr>status_code = 404, content = ''{"data":[1,2,3]}'', response_headers = []\<rparr>
   \<and> outcome (request_url sample_lib (reply 404 ''{"data":[1,2,3]}'') fresh
        ''https://api.mangadex.org/manga/0'' ''delete'' default_timeout None None)
     = Inl (ApiError (OfResponse
         \<lparr>status_code = 404, content = ''{"data":[1,2,3]}'', response_headers = []\<rparr>))\<close>
proof -
  let ?b = \<open>''{"data":[1,2,3]}''\<close>
  let ?r = "\<lparr>status_code = 404, content = ?b, response_headers = []\<rparr>"
  have h1: "Send 0 (Delete ''https://api.mangadex.org/manga/0'' None (NInt 10))
      \<in> set (trace (request_url sample_lib (reply 404 ?b) fresh
      ''https://api.mangadex.org/manga/0'' ''delete'' default_timeout None None))"
    by (simp add: run_simps)
  have h2: "reply 404 ?b 0 (Delete ''https://api.mangadex.org/manga/0'' None (NInt 10)) = Inr ?r"
    by (simp add: reply_def)
  have h3: "\<not> ok ?r" by (simp add: ok_def)
  from http_failure_raises_api_error [OF h1 h2 h3] h3 show ?thesis by simp
qed

text \<open>
  Claim C4, as stated, fails: a body that is not well-formed UTF-8 does not parse as JSON,
  and on a 200 response with such a body the call raises \<^verbatim>\<open>UnicodeDecodeError\<close>. Line 94
  decodes inside the \<^verbatim>\<open>try\<close>, whose handler catches \<^verbatim>\<open>JSONDecodeError\<close> only.
\<close>

theorem undecodable_body_counterexample:
  "utf8_decode [CHR 0xFF] = None
   \<and> json_loads sample_lib [CHR 0xFF] = None
   \<and> outcome (request_url sample_lib (reply 200 [CHR 0xFF]) fresh ''https://api.mangadex.org/ping''
        ''GET'' default_timeout None None) = Inl UnicodeDecodeError"
  by (simp add: run_simps)

text \<open>
  Claim C4, amended. The response received has a 2xx status. When its body is well-formed
  UTF-8 and \<^verbatim>\<open>json.loads\<close> rejects the decoded text with \<^verbatim>\<open>JSONDecodeError\<close>, the call
  returns the decoded text; when its body is not well-formed UTF-8, the call raises
  \<^verbatim>\<open>UnicodeDecodeError\<close>.
\<close>

theorem decodable_non_json_body_is_returned_as_text:
  assumes "Send s req \<in> set (trace (request_url L net st url method timeout ps hs))"
      and "net s req = Inr r"
      and "200 \<le> status_code r" and "status_code r < 300"
  shows "(\<forall>text. utf8_decode (content r) = Some text \<and> json_loads L text = None \<longrightarrow>
            outcome (request_url L net st url method timeout ps hs) = Inr (JStr text))
       \<and> (utf8_decode (content r) = None \<longrightarrow>
            outcome (request_url L net st url method timeout ps hs) = Inl UnicodeDecodeError)"
proof (intro conjI allI impI)
  fix t
  assume "utf8_decode (content r) = Some t \<and> json_loads L t = None"
  then show "outcome (request_url L net st url method timeout ps hs) = Inr (JStr t)"
    using request_url_success [OF assms, of t] by simp
next
  assume "utf8_decode (content r) = None"
  with undecodable_body_raises [OF assms(1,2) success_ok [OF assms(3,4)]]
  show "outcome (request_url L net st url method timeout ps hs) = Inl UnicodeDecodeError"
    by simp
qed

theorem decodable_non_json_body_is_returned_as_text_witness:
  "outcome (request_url sample_lib (reply 200 ''pong'') fresh ''https://api.mangadex.org/ping''
     ''GET'' default_timeout None None) = Inr (JStr ''pong'')"
proof -
  let ?r = "\<lparr>status_code = 200, content = ''pong'', response_headers = []\<rparr>"
  have h1: "Send 0 (Get ''https://api.mangadex.org/ping'' None (NInt 10))
      \<in> set (trace (request_url sample_lib (reply 200 ''pong'') fresh
      ''https://api.mangadex.org/ping'' ''GET'' default_timeout None None))"
    by (simp add: run_simps)
  have h2: "reply 200 ''pong'' 0 (Get ''https://api.mangadex.org/ping'' None (NInt 10)) = Inr ?r"
    by (simp add: reply_def)
  have h3: "200 \<le> status_code ?r" and h4: "status_code ?r < 300" by simp_all
  have h5: "utf8_decode (content ?r) = Some ''pong'' \<and> json_loads sample_lib ''pong'' = None"
    by (simp add: utf8_decode_def sample_lib_def sample_loads_def)
  from decodable_non_json_body_is_returned_as_text [OF h1 h2 h3 h4] h5 show ?thesis by blast
qed

text \<open>
  Claim C10. The response received has a 2xx status and its body decodes and parses to
  \<open>v\<close>. When \<open>v\<close> is neither a list nor a dictionary the check raises nothing and the
  call returns \<open>v\<close>; and whenever the check raises nothing the call returns \<open>v\<close>
  itself, whole, also when the check looked at the first element of a list only.
\<close>

theorem parsed_json_is_returned_whole:
  assumes "Send s req \<in> set (trace (request_url L net st url method timeout ps hs))"
      and "net s req = Inr r"
      and "200 \<le> status_code r" and "status_code r < 300"
      and "utf8_decode (content r) = Some text"
      and "json_loads L text = Some v"
  shows "((case v of JList xs \<Rightarrow> False | JDict d \<Rightarrow> False | _ \<Rightarrow> True) \<longrightarrow>
            check_api_error v = None
            \<and> outcome (request_url L net st url method timeout ps hs) = Inr v)
       \<and> (check_api_error v = None \<longrightarrow>
            outcome (request_url L net st url method timeout ps hs) = Inr v)"
proof -
  have whole: "outcome (request_url L net st url method timeout ps hs) = Inr v"
    if "check_api_error v = None"
    using request_url_success [OF assms(1-5)] assms(6) that by simp
  have scalar: "check_api_error v = None"
    if "case v of JList xs \<Rightarrow> False | JDict d \<Rightarrow> False | _ \<Rightarrow> True"
    using that by (cases v) (simp_all add: check_api_error_def)
  from whole scalar show ?thesis by auto
qed

theorem parsed_json_is_returned_whole_witness:
  \<open>outcome (request_url sample_lib (reply 200 ''42'') fresh ''https://api.mangadex.org/count''
     ''get'' default_timeout None None) = Inr (JInt 42)
   \<and> outcome (request_url sample_lib (reply 200 ''[{"id":7},{"error":"gone"}]'') fresh
     ''https://api.mangadex.org/count'' ''get'' default_timeout None None)
     = Inr (JList [JDict [(''id'', JInt 7)], JDict [(''error'', JStr ''gone'')]])\<close>
proof -
  let ?u = "''https://api.mangadex.org/count''"
  let ?b = \<open>''[{"id":7},{"error":"gone"}]''\<close>
  let ?v = "JList [JDict [(''id'', JInt 7)], JDict [(''error'', JStr ''gone'')]]"
  let ?r = "\<lparr>status_code = 200, content = ''42'', response_headers = []\<rparr>"
  let ?q = "\<lparr>status_code = 200, content = ?b, response_headers = []\<rparr>"
  have a1: "Send 0 (Get ?u None (NInt 10))
      \<in> set (trace (request_url sample_lib (reply 200 ''42'') fresh ?u ''get''
             default_timeout None None))"
    by (simp add: run_simps)
  have a2: "reply 200 ''42'' 0 (Get ?u None (NInt 10)) = Inr ?r"
    by (simp add: reply_def)
  have a3: "200 \<le> status_code ?r" and a4: "status_code ?r < 300" by simp_all
  have a5: "utf8_decode (content ?r) = Some ''42''" by (simp add: utf8_decode_def)
  have a6: "json_loads sample_lib ''42'' = Some (JInt 42)"
    by (simp add: sample_lib_def sample_loads_def)
  have b1: "Send 0 (Get ?u None (NInt 10))
      \<in> set (trace (request_url sample_lib (reply 200 ?b) fresh ?u ''get''
             default_timeout None None))"
    by (simp add: run_simps)
  have b2: "reply 200 ?b 0 (Get ?u None (NInt 10)) = Inr ?q"
    by (simp add: reply_def)
  have b3: "200 \<le> status_code ?q" and b4: "status_code ?q < 300" by simp_all
  have b5: "utf8_decode (content ?q) = Some ?b" by (simp add: utf8_decode_def)
  have b6: "json_loads sample_lib ?b = Some ?v"
    by (simp add: sample_lib_def sample_loads_def)
  have b7: "check_api_error ?v = None" by (simp add: check_api_error_def)
  from parsed_json_is_returned_whole [OF a1 a2 a3 a4 a5 a6]
    parsed_json_is_returned_whole [OF b1 b2 b3 b4 b5 b6] b7
  show ?thesis by simp
qed


lemma get_session_create:
  assumes "cls_session st = None"
  shows "get_session st =
    (length (heap st),
     \<lparr>heap = heap st @
        [Session [(''https://'', length (heap st) + 3), (''http://'', length (heap st) + 3)],
         Adapter default_adapter, Adapter default_adapter,
         Adapter \<lparr>pool_connections = 100, pool_maxsize = 100, max_retries = 3,
                  pool_block = True\<rparr>],
      cls_session = Some (length (heap st))\<rparr>)"
  using assms
  by (simp add: get_session_def new_session_def new_obj_def mount_def nth_append
      list_update_append)

lemma get_session_reuse: "cls_session st = Some s \<Longrightarrow> get_session st = (s, st)"
  by (simp add: get_session_def)

lemma get_session_sets: "cls_session (snd (get_session st)) = Some (fst (get_session st))"
proof (cases "cls_session st")
  case None
  then show ?thesis by (simp add: get_session_create)
next
  case (Some s)
  then show ?thesis by (simp add: get_session_reuse)
qed

lemma get_session_stable:
  "get_session (snd (get_session st)) = (fst (get_session st), snd (get_session st))"
  using get_session_sets by (rule get_session_reuse)

lemma request_url_after:
  "after (request_url L net st url method timeout ps hs) = snd (get_session st)"
  by (auto simp: request_url_def Let_def split: prod.splits sum.splits)

lemma request_url_session:
  "Send s req \<in> set (trace (request_url L net st url method timeout ps hs)) \<Longrightarrow>
   s = fst (get_session st)"
  by (auto simp: request_url_def Let_def split: prod.splits sum.splits if_splits)

lemma run_shares_session:
  "c \<in> set (run st calls) \<Longrightarrow>
   after c = snd (get_session st)
   \<and> (\<forall>s req. Send s req \<in> set (trace c) \<longrightarrow> s = fst (get_session st))"
proof (induction calls arbitrary: st)
  case Nil
  then show ?case by simp
next
  case (Cons i rest)
  let ?c = "request_url (arg_lib i) (arg_net i) st (arg_url i) (arg_method i) (arg_timeout i)
              (arg_params i) (arg_headers i)"
  from Cons.prems consider "c = ?c" | "c \<in> set (run (after ?c) rest)"
    by (auto simp: Let_def)
  then show ?case
  proof cases
    case 1
    then show ?thesis using request_url_after request_url_session by blast
  next
    case 2
    from Cons.IH [OF 2] show ?thesis
      by (simp add: request_url_after get_session_stable)
  qed
qed

text \<open>
  Claim C9. \<^verbatim>\<open>_get_session\<close> creates the session when the class attribute is \<^verbatim>\<open>None\<close>: a
  new object, with one new adapter (\<^verbatim>\<open>pool_connections=100\<close>, \<^verbatim>\<open>pool_maxsize=100\<close>,
  \<^verbatim>\<open>max_retries=3\<close>, \<^verbatim>\<open>pool_block=True\<close>) mounted for both \<^verbatim>\<open>http://\<close> and \<^verbatim>\<open>https://\<close>, and
  stored in the attribute. When the attribute is set it returns that session and changes
  nothing, so a second call returns the same reference; and in any sequence of requests
  made one after the other, every send is on that one session and the state stays the one
  the first acquisition left.
\<close>

theorem session_is_created_once_and_shared:
  "(cls_session st = None \<longrightarrow>
      get_session st =
        (length (heap st),
         \<lparr>heap = heap st @
            [Session [(''https://'', length (heap st) + 3), (''http://'', length (heap st) + 3)],
             Adapter default_adapter, Adapter default_adapter,
             Adapter \<lparr>pool_connections = 100, pool_maxsize = 100, max_retries = 3,
                      pool_block = True\<rparr>],
          cls_session = Some (length (heap st))\<rparr>))
   \<and> (\<forall>s. cls_session st = Some s \<longrightarrow> get_session st = (s, st))
   \<and> get_session (snd (get_session st)) = (fst (get_session st), snd (get_session st))
   \<and> (\<forall>c \<in> set (run st calls).
        after c = snd (get_session st)
        \<and> (\<forall>s req. Send s req \<in> set (trace c) \<longrightarrow> s = fst (get_session st)))"
  using get_session_create [of st] get_session_reuse [of st] get_session_stable [of st]
    run_shares_session [of _ st calls]
  by blast


theorem session_is_created_once_and_shared_witness:
  "cls_session fresh = None
   \<and> get_session fresh =
       (0, \<lparr>heap = [Session [(''https://'', 3), (''http://'', 3)],
                   Adapter default_adapter, Adapter default_adapter,
                   Adapter \<lparr>pool_connections = 100, pool_maxsize = 100, max_retries = 3,
                            pool_block = True\<rparr>],
             cls_session = Some 0\<rparr>)
   \<and> map trace (run fresh [ping_call, ping_call]) =
       [[Send 0 (Get ''https://api.mangadex.org/ping'' None (NInt 10))],
        [Send 0 (Get ''https://api.mangadex.org/ping'' None (NInt 10))]]
   \<and> map after (run fresh [ping_call, ping_call]) =
       [snd (get_session fresh), snd (get_session fresh)]"
proof -
  have h: "cls_session fresh = None" by (simp add: fresh_def)
  have g: "get_session fresh =
       (0, \<lparr>heap = [Session [(''https://'', 3), (''http://'', 3)],
                   Adapter default_adapter, Adapter default_adapter,
                   Adapter \<lparr>pool_connections = 100, pool_maxsize = 100, max_retries = 3,
                            pool_block = True\<rparr>],
             cls_session = Some 0\<rparr>)"
    using session_is_created_once_and_shared [of fresh "[ping_call, ping_call]"] h
    by (simp add: fresh_def)
  have t: "map trace (run fresh [ping_call, ping_call]) =
       [[Send 0 (Get ''https://api.mangadex.org/ping'' None (NInt 10))],
        [Send 0 (Get ''https://api.mangadex.org/ping'' None (NInt 10))]]"
    by (simp add: ping_call_def run_simps)
  have a: "map after (run fresh [ping_call, ping_call]) =
       [snd (get_session fresh), snd (get_session fresh)]"
    by (simp add: ping_call_def run_simps)
  from h g t a show ?thesis by simp
qed

end
